theory Spec2Isabelle
  imports Main "HOL-Library.Sublist"
begin

section \<open>JavaScript strings\<close>

text \<open>
  A JavaScript string is a sequence of UTF-16 code units. A code unit is modelled as a
  natural number (a real one is below \<open>0x10000\<close>), a string as the list of its code units.
  Every character the parsers look for (colon, comma, newline, parentheses, letters,
  digits) is one code unit, so \<open>split\<close>, \<open>indexOf\<close>, \<open>slice\<close> and \<open>trim\<close> are list
  operations. \<open>ascii\<close> writes an ASCII literal as such a string.
\<close>

type_synonym jsstring = "nat list"

definition ascii :: "string \<Rightarrow> jsstring" where
  "ascii s = map of_char s"

text \<open>\<open>undefined\<close> (an array read out of range) is \<open>None\<close>.\<close>

type_synonym jsvalue = "jsstring option"

definition nth_opt :: "'a list \<Rightarrow> nat \<Rightarrow> 'a option" where
  "nth_opt xs i = (if i < length xs then Some (xs ! i) else None)"

text \<open>\<open>ToString\<close>, as \<open>RegExp.prototype.test\<close> applies it to its argument.\<close>

definition toString :: "jsvalue \<Rightarrow> jsstring" where
  "toString v = (case v of None \<Rightarrow> ascii ''undefined'' | Some s \<Rightarrow> s)"

text \<open>\<open>!!v\<close> for a string or \<open>undefined\<close>: only a non-empty string is truthy.\<close>

definition truthy :: "jsvalue \<Rightarrow> bool" where
  "truthy v = (case v of None \<Rightarrow> False | Some s \<Rightarrow> s \<noteq> [])"

text \<open>
  \<open>String.prototype.trim\<close> removes the code units of WhiteSpace and LineTerminator
  (ECMAScript 12.2 and 12.3) from both ends.
\<close>

definition isLineTerminator :: "nat \<Rightarrow> bool" where
  "isLineTerminator c = (c = 0x0A \<or> c = 0x0D \<or> c = 0x2028 \<or> c = 0x2029)"

definition isWhiteSpace :: "nat \<Rightarrow> bool" where
  "isWhiteSpace c =
     (c = 0x09 \<or> c = 0x0B \<or> c = 0x0C \<or> c = 0x20 \<or> c = 0xA0 \<or> c = 0x1680 \<or>
      (0x2000 \<le> c \<and> c \<le> 0x200A) \<or> c = 0x202F \<or> c = 0x205F \<or> c = 0x3000 \<or>
      c = 0xFEFF)"

definition isTrimmed :: "nat \<Rightarrow> bool" where
  "isTrimmed c = (isWhiteSpace c \<or> isLineTerminator c)"

definition trim :: "jsstring \<Rightarrow> jsstring" where
  "trim s = rev (dropWhile isTrimmed (rev (dropWhile isTrimmed s)))"

text \<open>
  \<open>for (const char of input)\<close> iterates code points: a high surrogate followed by a low
  surrogate is one two-unit string, every other code unit a one-unit string.
\<close>

definition isHighSurrogate :: "nat \<Rightarrow> bool" where
  "isHighSurrogate c = (0xD800 \<le> c \<and> c \<le> 0xDBFF)"

definition isLowSurrogate :: "nat \<Rightarrow> bool" where
  "isLowSurrogate c = (0xDC00 \<le> c \<and> c \<le> 0xDFFF)"

definition codePointOfPair :: "nat \<Rightarrow> nat \<Rightarrow> nat" where
  "codePointOfPair h l = 0x10000 + (h - 0xD800) * 0x400 + (l - 0xDC00)"

fun codePoints :: "jsstring \<Rightarrow> jsstring list" where
  "codePoints [] = []"
| "codePoints [c] = [[c]]"
| "codePoints (c # d # cs) =
     (if isHighSurrogate c \<and> isLowSurrogate d then [c, d] # codePoints cs
      else [c] # codePoints (d # cs))"

section \<open>Text classifiers (src/utils/text.ts)\<close>

text \<open>The source's list, duplicates included.\<close>

definition punctuations :: "jsstring list" where
  "punctuations =
     [[0xFF0C], [0x2C], [0x3002], [0x2E], [0xFF1F], [0x3F], [0xFF01], [0x21],
      [0xFF1B], [0x3B], [0xFF1A], [0x3A], [0x3001], [0x2C], [0xFF0C], [0x22EF]]"

text \<open>
  \<open>isHanzi\<close> tests an unanchored XRegExp pattern in astral mode: the string has a code
  point of one of six Unicode blocks (CJK Unified Ideographs and its extensions A to E).
  The block ranges are Unicode's; XRegExp's table is not part of the repository.
\<close>

definition inCJKBlocks :: "nat \<Rightarrow> bool" where
  "inCJKBlocks cp =
     ((0x4E00 \<le> cp \<and> cp \<le> 0x9FFF) \<or> (0x3400 \<le> cp \<and> cp \<le> 0x4DBF) \<or>
      (0x20000 \<le> cp \<and> cp \<le> 0x2A6DF) \<or> (0x2A700 \<le> cp \<and> cp \<le> 0x2B73F) \<or>
      (0x2B740 \<le> cp \<and> cp \<le> 0x2B81F) \<or> (0x2B820 \<le> cp \<and> cp \<le> 0x2CEAF))"

fun isHanzi :: "jsstring \<Rightarrow> bool" where
  "isHanzi [] = False"
| "isHanzi [c] = inCJKBlocks c"
| "isHanzi (c # d # cs) =
     (inCJKBlocks c \<or>
      (isHighSurrogate c \<and> isLowSurrogate d \<and> inCJKBlocks (codePointOfPair c d)) \<or>
      isHanzi (d # cs))"

definition isAlphabetic :: "nat \<Rightarrow> bool" where
  "isAlphabetic c = ((0x61 \<le> c \<and> c \<le> 0x7A) \<or> (0x41 \<le> c \<and> c \<le> 0x5A))"

definition isAlphanumeric :: "nat \<Rightarrow> bool" where
  "isAlphanumeric c = (isAlphabetic c \<or> (0x30 \<le> c \<and> c \<le> 0x39))"

text \<open>\<open>/[a-zA-Z0-9]/.test(text)\<close>: some code unit of the string is alphanumeric.\<close>

definition isJyuutping :: "jsstring \<Rightarrow> bool" where
  "isJyuutping s = list_ex isAlphanumeric s"

text \<open>\<open>/[a-zA-Z]/.test(text)\<close>.\<close>

definition testAlphabetic :: "jsstring \<Rightarrow> bool" where
  "testAlphabetic s = list_ex isAlphabetic s"

text \<open>\<open>punctuations.includes(text)\<close>; \<open>undefined\<close> is no element of the list.\<close>

definition isPunctuation :: "jsvalue \<Rightarrow> bool" where
  "isPunctuation v = (case v of None \<Rightarrow> False | Some s \<Rightarrow> s \<in> set punctuations)"

section \<open>Tokenizer and reading aligner (src/utils/cantonese.ts)\<close>

text \<open>
  One iteration of the loop of \<open>splitString\<close>, on the state \<open>(resultArray, current)\<close>.
  For a letter or digit, \<open>flushed\<close> is the state after the inner \<open>if\<close>, before
  \<open>current += char\<close>. The branch for a punctuation mark and the last branch do the same.
\<close>

definition splitString_step ::
  "jsstring list \<times> jsstring \<Rightarrow> jsstring \<Rightarrow> jsstring list \<times> jsstring" where
  "splitString_step st char =
     (case st of (resultArray, current) \<Rightarrow>
        if isJyuutping char then
          (let isAlphabetical = testAlphabetic char;
               flushed =
                 (if current \<noteq> [] then
                    (let isPreviousAlphabetical = testAlphabetic [last current] in
                       if isAlphabetical \<and> \<not> isPreviousAlphabetical
                       then (resultArray @ [current], [])
                       else (resultArray, current))
                  else (resultArray, current))
           in (fst flushed, snd flushed @ char))
        else if char \<in> set punctuations then
          (if current \<noteq> [] then (resultArray @ [current, char], [])
           else (resultArray @ [char], []))
        else
          (if current \<noteq> [] then (resultArray @ [current, char], [])
           else (resultArray @ [char], [])))"

definition splitString :: "jsstring \<Rightarrow> jsstring list" where
  "splitString input =
     (case foldl splitString_step ([], []) (codePoints input) of
        (resultArray, current) \<Rightarrow>
          filter (\<lambda>item. item \<noteq> [])
            (map trim (if current \<noteq> [] then resultArray @ [current] else resultArray)))"

record TextReadingPair =
  pair_text :: jsstring
  pair_reading :: jsstring

text \<open>The messages of the errors thrown, with the values their templates print.\<close>

datatype message =
    Unexpected_text_and_reading jsvalue jsvalue nat jsstring jsstring
  | Unexpected_reading jsvalue nat jsstring jsstring
  | Invalid_id jsstring
  | Invalid_headword jsstring
  | Entry_does_not_start_with_pos jsstring
  | Entry_is_empty "jsstring list"
  | No_tags_found jsstring
  | Invalid_language jsstring
  | Push_is_not_a_function jsstring
  | Cannot_read_properties_of_undefined

datatype error = Error message | ParseError message | TypeError message

type_synonym align_state = "TextReadingPair list \<times> nat \<times> nat"

text \<open>
  The body of the alignment loop, on the state \<open>(resultArray, readingIndex, textIndex)\<close>.
  In the first three branches \<open>text\<close> is a string, in the first and third \<open>reading\<close> too.
\<close>

definition parseCantoneseReadings_step ::
  "jsstring \<Rightarrow> jsstring \<Rightarrow> jsstring list \<Rightarrow> jsstring list \<Rightarrow> nat \<Rightarrow> align_state
     \<Rightarrow> error + align_state" where
  "parseCantoneseReadings_step rawText readings textArray readingsArray i st =
     (case st of (resultArray, readingIndex, textIndex) \<Rightarrow>
        let text = nth_opt textArray textIndex;
            reading = nth_opt readingsArray readingIndex;
            isTextHanzi = isHanzi (toString text);
            isTextAlphanumeric = isJyuutping (toString text);
            isTextPunctuation = isPunctuation text;
            isReadingJyutping = isJyuutping (toString reading);
            isReadingPunctuation = isPunctuation reading
        in
          if truthy text \<and> truthy reading \<and>
             ((isTextHanzi \<and> isReadingJyutping) \<or> (isTextAlphanumeric \<and> isReadingJyutping))
          then Inr (resultArray @ [\<lparr>pair_text = toString text, pair_reading = toString reading\<rparr>],
                    readingIndex + 1, textIndex + 1)
          else if truthy text \<and>
             ((isTextPunctuation \<and> isReadingJyutping) \<or> (truthy text \<and> reading = None) \<or>
              (\<not> isTextAlphanumeric \<and> \<not> isTextHanzi \<and> isReadingJyutping))
          then Inr (resultArray @ [\<lparr>pair_text = toString text, pair_reading = []\<rparr>],
                    readingIndex, textIndex + 1)
          else if truthy text \<and> truthy reading \<and>
             ((isTextPunctuation \<and> isReadingPunctuation) \<or>
              (\<not> isTextAlphanumeric \<and> \<not> isTextHanzi \<and> \<not> isReadingJyutping))
          then Inr (resultArray @ [\<lparr>pair_text = toString text, pair_reading = []\<rparr>],
                    readingIndex + 1, textIndex + 1)
          else Inl (Error (Unexpected_text_and_reading text reading i rawText readings)))"

function parseCantoneseReadings_loop ::
  "jsstring \<Rightarrow> jsstring \<Rightarrow> jsstring list \<Rightarrow> jsstring list \<Rightarrow> nat \<Rightarrow> align_state
     \<Rightarrow> error + align_state" where
  "parseCantoneseReadings_loop rawText readings textArray readingsArray i st =
     (if i < max (length textArray) (length readingsArray) then
        (case parseCantoneseReadings_step rawText readings textArray readingsArray i st of
           Inl e \<Rightarrow> Inl e
         | Inr st' \<Rightarrow>
             parseCantoneseReadings_loop rawText readings textArray readingsArray (Suc i) st')
      else Inr st)"
  by pat_completeness auto
termination
  by (relation "measure (\<lambda>(rawText, readings, textArray, readingsArray, i, st).
        max (length textArray) (length readingsArray) - i)") auto

declare parseCantoneseReadings_loop.simps [simp del]

definition parseCantoneseReadings :: "jsstring \<Rightarrow> jsstring \<Rightarrow> error + TextReadingPair list" where
  "parseCantoneseReadings rawText readings =
     (let textArray = splitString rawText;
          readingsArray = splitString readings
      in case parseCantoneseReadings_loop rawText readings textArray readingsArray 0 ([], 0, 0) of
           Inl e \<Rightarrow> Inl e
         | Inr (resultArray, readingIndex, textIndex) \<Rightarrow>
             if readingIndex < length readingsArray
             then Inl (Error (Unexpected_reading (nth_opt readingsArray readingIndex)
                                readingIndex rawText readings))
             else Inr resultArray)"

section \<open>String operations the parser uses\<close>

text \<open>\<open>s.startsWith(p)\<close>.\<close>

definition startsWith :: "jsstring \<Rightarrow> jsstring \<Rightarrow> bool" where
  "startsWith s p = (take (length p) s = p)"

text \<open>
  \<open>s.split(sep)\<close> for a non-empty string \<open>sep\<close>: the pieces between the leftmost
  non-overlapping occurrences of \<open>sep\<close>; never an empty array.
\<close>

function js_split :: "jsstring \<Rightarrow> jsstring \<Rightarrow> jsstring list" where
  "js_split sep [] = [[]]"
| "js_split sep (c # cs) =
     (if sep \<noteq> [] \<and> startsWith (c # cs) sep
      then [] # js_split sep (drop (length sep) (c # cs))
      else (case js_split sep cs of [] \<Rightarrow> [[c]] | piece # pieces \<Rightarrow> (c # piece) # pieces))"
  by pat_completeness auto
termination
  by (relation "measure (\<lambda>(sep, s). length s)") auto

text \<open>
  \<open>s.split(/^d$/gm)\<close> for a literal line \<open>d\<close>: with the flag \<open>m\<close>, \<open>^\<close> matches at the start
  of the input and after a line terminator, \<open>$\<close> at its end and before a line terminator.
  Only the matched \<open>d\<close> is removed; the line terminators around it stay in the pieces.
  \<open>bol\<close> says whether \<open>^\<close> matches at the current position.
\<close>

function split_line_regex :: "jsstring \<Rightarrow> bool \<Rightarrow> jsstring \<Rightarrow> jsstring list" where
  "split_line_regex d bol [] = [[]]"
| "split_line_regex d bol (c # cs) =
     (if d \<noteq> [] \<and> bol \<and> startsWith (c # cs) d \<and>
         (case drop (length d) (c # cs) of [] \<Rightarrow> True | r # _ \<Rightarrow> isLineTerminator r)
      then [] # split_line_regex d (isLineTerminator (last d)) (drop (length d) (c # cs))
      else (case split_line_regex d (isLineTerminator c) cs of
              [] \<Rightarrow> [[c]]
            | piece # pieces \<Rightarrow> (c # piece) # pieces))"
  by pat_completeness auto
termination
  by (relation "measure (\<lambda>(d, bol, s). length s)") auto

text \<open>\<open>lines.join(sep)\<close>.\<close>

fun js_join :: "jsstring \<Rightarrow> jsstring list \<Rightarrow> jsstring" where
  "js_join sep [] = []"
| "js_join sep [x] = x"
| "js_join sep (x # y # ys) = x @ sep @ js_join sep (y # ys)"

text \<open>\<open>s.replace(pat, rep)\<close> for strings: the first occurrence of \<open>pat\<close> only.\<close>

fun replace_first :: "jsstring \<Rightarrow> jsstring \<Rightarrow> jsstring \<Rightarrow> jsstring" where
  "replace_first pat rep [] = (if pat = [] then rep else [])"
| "replace_first pat rep (c # cs) =
     (if startsWith (c # cs) pat then rep @ drop (length pat) (c # cs)
      else c # replace_first pat rep cs)"

text \<open>\<open>s.indexOf(c)\<close> for a one-unit string: \<open>-1\<close> when \<open>c\<close> does not occur.\<close>

fun indexOf :: "jsstring \<Rightarrow> nat \<Rightarrow> int" where
  "indexOf [] c = -1"
| "indexOf (x # xs) c =
     (if x = c then 0 else (let i = indexOf xs c in if i < 0 then -1 else i + 1))"

text \<open>\<open>s.slice(start, end)\<close> and \<open>s.slice(start)\<close>: a negative index counts from the end.\<close>

definition slice_index :: "jsstring \<Rightarrow> int \<Rightarrow> nat" where
  "slice_index s k =
     (if k < 0 then nat (max (int (length s) + k) 0) else nat (min k (int (length s))))"

definition slice :: "jsstring \<Rightarrow> int \<Rightarrow> int \<Rightarrow> jsstring" where
  "slice s start end =
     take (slice_index s end - slice_index s start) (drop (slice_index s start) s)"

definition slice_from :: "jsstring \<Rightarrow> int \<Rightarrow> jsstring" where
  "slice_from s start = drop (slice_index s start) s"

text \<open>
  \<open>parseInt(string)\<close> with no radix (ECMAScript 19.2.5): leading white space is skipped, a
  sign is read, a prefix \<open>0x\<close> or \<open>0X\<close> selects radix 16, and the longest prefix of digits is
  the value; \<open>None\<close> is \<open>NaN\<close> (no digit). The result is the mathematical integer read;
  the Number it becomes is the same integer up to \<open>2 ^ 53\<close> in magnitude.
\<close>

definition digitValue :: "nat \<Rightarrow> nat" where
  "digitValue c =
     (if 0x30 \<le> c \<and> c \<le> 0x39 then c - 0x30
      else if 0x61 \<le> c \<and> c \<le> 0x7A then c - 0x61 + 10
      else if 0x41 \<le> c \<and> c \<le> 0x5A then c - 0x41 + 10
      else 36)"

definition parseInt :: "jsstring \<Rightarrow> int option" where
  "parseInt string =
     (let S = dropWhile isTrimmed string;
          sign = (case S of [] \<Rightarrow> 1 | c # _ \<Rightarrow> if c = 0x2D then - 1 else (1 :: int));
          S1 = (case S of [] \<Rightarrow> [] | c # cs \<Rightarrow> if c = 0x2B \<or> c = 0x2D then cs else S);
          hex = (startsWith S1 (ascii ''0x'') \<or> startsWith S1 (ascii ''0X''));
          R = (if hex then 16 else 10);
          S2 = (if hex then drop 2 S1 else S1);
          Z = takeWhile (\<lambda>c. digitValue c < R) S2
      in if Z = [] then None
         else Some (sign * int (foldl (\<lambda>n c. n * R + digitValue c) 0 Z)))"

section \<open>The data model (src/types.ts)\<close>

record CsvRecord =
  csv_id :: jsstring
  csv_headword :: jsstring
  csv_entry :: jsstring
  csv_variants :: jsstring
  csv_warning :: jsstring
  csv_public :: jsstring

record Headword =
  headword_text :: jsstring
  headword_readings :: "jsstring list"

record Tag =
  tag_name :: jsstring
  tag_value :: jsstring

text \<open>
  A \<open>LanguageData\<close> object: its own properties in insertion order, each an array of
  segments.
\<close>

type_synonym LanguageData = "(jsstring \<times> jsstring list) list"

record Sense =
  explanation :: LanguageData
  egs :: "LanguageData list"

record DictionaryEntry =
  entry_id :: int
  headwords :: "Headword list"
  tags :: "Tag list"
  senses :: "Sense list"

section \<open>The language table (src/constants.ts)\<close>

text \<open>
  The own keys of \<open>LANGUAGES_DATA\<close>, in the source's order; the last is the two-character
  key U+91CF U+8A5E. Each value is an object, so truthy.
\<close>

definition LANGUAGES_DATA_keys :: "jsstring list" where
  "LANGUAGES_DATA_keys =
     [ascii ''yue'', ascii ''eng'', ascii ''zho'', ascii ''jpn'', ascii ''kor'', ascii ''vie'',
      ascii ''lzh'', ascii ''por'', ascii ''deu'', ascii ''fra'', ascii ''mnc'', ascii ''lat'',
      ascii ''tib'', [0x91CF, 0x8A5E]]"

text \<open>
  \<open>LANGUAGES_DATA\<close> and every \<open>LanguageData\<close> are plain objects: a property read that finds
  no own property goes on to \<open>Object.prototype\<close>, whose properties (ECMAScript 20.1.3 and
  B.2.2) are functions, or an object for \<open>__proto__\<close>: truthy, and none has a \<open>push\<close>.
\<close>

definition Object_prototype_keys :: "jsstring list" where
  "Object_prototype_keys =
     [ascii ''constructor'', ascii ''hasOwnProperty'', ascii ''isPrototypeOf'',
      ascii ''propertyIsEnumerable'', ascii ''toLocaleString'', ascii ''toString'',
      ascii ''valueOf'', ascii ''__proto__'', ascii ''__defineGetter__'',
      ascii ''__defineSetter__'', ascii ''__lookupGetter__'', ascii ''__lookupSetter__'']"

text \<open>Whether \<open>LANGUAGES_DATA[key]\<close> is truthy.\<close>

definition LANGUAGES_DATA_truthy :: "jsstring \<Rightarrow> bool" where
  "LANGUAGES_DATA_truthy key =
     (key \<in> set LANGUAGES_DATA_keys \<or> key \<in> set Object_prototype_keys)"

section \<open>The entry parser (parseEntry and the functions it calls)\<close>

text \<open>\<open>xs.map(f)\<close> where \<open>f\<close> may throw: the first error ends the call.\<close>

fun map_result :: "('a \<Rightarrow> error + 'b) \<Rightarrow> 'a list \<Rightarrow> error + 'b list" where
  "map_result f [] = Inr []"
| "map_result f (x # xs) =
     (case f x of
        Inl e \<Rightarrow> Inl e
      | Inr y \<Rightarrow> (case map_result f xs of Inl e \<Rightarrow> Inl e | Inr ys \<Rightarrow> Inr (y # ys)))"

text \<open>A \<open>for ... of\<close> loop over a state, where the body may throw.\<close>

fun foldl_result :: "('s \<Rightarrow> 'a \<Rightarrow> error + 's) \<Rightarrow> 's \<Rightarrow> 'a list \<Rightarrow> error + 's" where
  "foldl_result f st [] = Inr st"
| "foldl_result f st (x # xs) =
     (case f st x of Inl e \<Rightarrow> Inl e | Inr st' \<Rightarrow> foldl_result f st' xs)"

text \<open>\<open>!readings\<close> for an array: every array, the empty one too, is truthy.\<close>

definition array_truthy :: "'a list \<Rightarrow> bool" where
  "array_truthy xs = True"

text \<open>The callback of \<open>parseHeadwords\<close>, on one comma-separated group.\<close>

definition parseHeadwords_group :: "jsstring \<Rightarrow> error + Headword" where
  "parseHeadwords_group headword =
     (case js_split [0x3A] headword of
        [] \<Rightarrow> Inl (ParseError (Invalid_headword headword))
      | text # readings \<Rightarrow>
          if text = [] \<or> \<not> array_truthy readings
          then Inl (ParseError (Invalid_headword headword))
          else Inr \<lparr>headword_text = text, headword_readings = readings\<rparr>)"

definition parseHeadwords :: "jsstring \<Rightarrow> error + Headword list" where
  "parseHeadwords headwordString =
     map_result parseHeadwords_group (js_split [0x2C] headwordString)"

text \<open>The callback of \<open>parseTags\<close>, on one fragment of the tag line.\<close>

definition parseTags_tag :: "jsstring \<Rightarrow> Tag" where
  "parseTags_tag fragment =
     (let tag = filter (\<lambda>c. c \<noteq> 0x28 \<and> c \<noteq> 0x29) fragment;
          colonIndex = indexOf tag 0x3A;
          name = trim (slice tag 0 colonIndex);
          value = trim (slice_from tag (colonIndex + 1))
      in \<lparr>tag_name = name, tag_value = value\<rparr>)"

text \<open>
  \<open>parseTags\<close> removes the first line from the caller's array: the model returns the
  lines that remain with the tags.
\<close>

definition parseTags :: "jsstring list \<Rightarrow> error + Tag list \<times> jsstring list" where
  "parseTags entryLines =
     (case entryLines of
        [] \<Rightarrow> Inl (TypeError Cannot_read_properties_of_undefined)
      | firstLine # remaining \<Rightarrow>
          if \<not> startsWith firstLine (ascii ''(pos:'')
          then Inl (ParseError (Entry_does_not_start_with_pos firstLine))
          else if firstLine = [] then Inl (ParseError (Entry_is_empty remaining))
          else
            (let tags = map parseTags_tag (js_split (ascii '')('') firstLine) in
               if length tags = 0 then Inl (ParseError (No_tags_found firstLine))
               else Inr (tags, remaining)))"

text \<open>
  The state of \<open>parseLanguageData\<close>: \<open>(languageData, currentLang, currentLangData)\<close>.
  \<open>languageData[currentLang]\<close> is the own property if there is one (an array, truthy),
  else what \<open>Object.prototype\<close> has under that name, else \<open>undefined\<close>.
\<close>

type_synonym lang_state = "LanguageData \<times> jsstring \<times> jsstring"

fun set_property :: "jsstring \<Rightarrow> jsstring list \<Rightarrow> LanguageData \<Rightarrow> LanguageData" where
  "set_property key v [] = [(key, v)]"
| "set_property key v ((k, w) # ps) =
     (if k = key then (k, v) # ps else (k, w) # set_property key v ps)"

definition addCurrentLangData :: "lang_state \<Rightarrow> error + lang_state" where
  "addCurrentLangData st =
     (case st of (languageData, currentLang, currentLangData) \<Rightarrow>
        if currentLang = [] then Inr st
        else if currentLangData = [] then Inr st
        else
          (case map_of languageData currentLang of
             Some segments \<Rightarrow>
               Inr (set_property currentLang (segments @ [trim currentLangData]) languageData,
                    [], [])
           | None \<Rightarrow>
               if currentLang \<in> set Object_prototype_keys
               then Inl (TypeError (Push_is_not_a_function currentLang))
               else Inr (set_property currentLang [trim currentLangData] languageData, [], [])))"

definition parseLanguageData_step :: "lang_state \<Rightarrow> jsstring \<Rightarrow> error + lang_state" where
  "parseLanguageData_step st line =
     (case st of (languageData, currentLang, currentLangData) \<Rightarrow>
        let matchedLang = hd (js_split [0x3A] line) in
          if 0x3A \<notin> set line
          then Inr (languageData, currentLang, currentLangData @ [0x0A] @ trim line)
          else if \<not> LANGUAGES_DATA_truthy matchedLang
          then Inl (ParseError (Invalid_language matchedLang))
          else
            (case addCurrentLangData st of
               Inl e \<Rightarrow> Inl e
             | Inr (languageData', _, _) \<Rightarrow>
                 Inr (languageData', matchedLang,
                      trim (replace_first (matchedLang @ [0x3A]) [] line))))"

definition parseLanguageData :: "jsstring \<Rightarrow> error + LanguageData" where
  "parseLanguageData text =
     (case foldl_result parseLanguageData_step ([], [], []) (js_split [0x0A] text) of
        Inl e \<Rightarrow> Inl e
      | Inr st \<Rightarrow>
          (case addCurrentLangData st of
             Inl e \<Rightarrow> Inl e
           | Inr (languageData, _, _) \<Rightarrow> Inr languageData))"

definition parseSense :: "jsstring \<Rightarrow> error + Sense" where
  "parseSense entryText0 =
     (let entryText = replace_first (ascii ''<explanation>'' @ [0x0A]) [] entryText0 in
        case split_line_regex (ascii ''<eg>'') True entryText of
          [] \<Rightarrow> Inl (TypeError Cannot_read_properties_of_undefined)
        | explanationText # examplesTexts \<Rightarrow>
            (case parseLanguageData explanationText of
               Inl e \<Rightarrow> Inl e
             | Inr explanation' \<Rightarrow>
                 (case map_result parseLanguageData examplesTexts of
                    Inl e \<Rightarrow> Inl e
                  | Inr egs' \<Rightarrow> Inr \<lparr>explanation = explanation', egs = egs'\<rparr>)))"

definition parseEntry :: "CsvRecord \<Rightarrow> error + DictionaryEntry" where
  "parseEntry entry =
     (case parseInt (csv_id entry) of
        None \<Rightarrow> Inl (ParseError (Invalid_id (csv_id entry)))
      | Some id' \<Rightarrow>
          (case parseHeadwords (csv_headword entry) of
             Inl e \<Rightarrow> Inl e
           | Inr headwords' \<Rightarrow>
               (case parseTags (js_split [0x0A] (csv_entry entry)) of
                  Inl e \<Rightarrow> Inl e
                | Inr (tags', entryLines) \<Rightarrow>
                    (let explanationsText = js_join [0x0A] entryLines;
                         explanationsTexts =
                           split_line_regex (ascii ''----'') True explanationsText
                     in case map_result parseSense explanationsTexts of
                          Inl e \<Rightarrow> Inl e
                        | Inr senses' \<Rightarrow>
                            Inr \<lparr>entry_id = id', headwords = headwords', tags = tags',
                                 senses = senses'\<rparr>))))"

section \<open>Definitions used to state the properties\<close>

text \<open>
  The invariant of the alignment loop: every iteration that does not throw consumes one
  text token, and the readings it has emitted are the consumed reading tokens that hold a
  letter or digit.
\<close>

definition align_inv :: "jsstring list \<Rightarrow> jsstring list \<Rightarrow> align_state \<Rightarrow> bool" where
  "align_inv textArray readingsArray st =
     (case st of (resultArray, readingIndex, textIndex) \<Rightarrow>
        length resultArray = textIndex \<and> textIndex \<le> length textArray \<and>
        readingIndex \<le> length readingsArray \<and>
        map pair_text resultArray = take textIndex textArray \<and>
        filter (\<lambda>r. r \<noteq> []) (map pair_reading resultArray) =
          filter isJyuutping (take readingIndex readingsArray))"

text \<open>The example of the doc comment of \<open>parseCantoneseReadings\<close>.\<close>

definition docText :: jsstring where
  "docText =
     [0x4F60] @ ascii ''get'' @ [0x5514] @ ascii ''get'' @ [0x5230, 0x6211, 0x8B1B, 0x54A9, 0xFF1F]"

definition docReading :: jsstring where
  "docReading = ascii ''nei5 get1 m4 get1 dou2 ngo5 gong2 me1?''"

definition docResult :: "TextReadingPair list" where
  "docResult =
     [\<lparr>pair_text = [0x4F60], pair_reading = ascii ''nei5''\<rparr>,
      \<lparr>pair_text = ascii ''get'', pair_reading = ascii ''get1''\<rparr>,
      \<lparr>pair_text = [0x5514], pair_reading = ascii ''m4''\<rparr>,
      \<lparr>pair_text = ascii ''get'', pair_reading = ascii ''get1''\<rparr>,
      \<lparr>pair_text = [0x5230], pair_reading = ascii ''dou2''\<rparr>,
      \<lparr>pair_text = [0x6211], pair_reading = ascii ''ngo5''\<rparr>,
      \<lparr>pair_text = [0x8B1B], pair_reading = ascii ''gong2''\<rparr>,
      \<lparr>pair_text = [0x54A9], pair_reading = ascii ''me1''\<rparr>,
      \<lparr>pair_text = [0xFF1F], pair_reading = []\<rparr>]"


text \<open>
  A row with the id \<open>0\<close> and two senses, the first with one example, the second with two,
  and the entry it parses to.
\<close>

definition row0 :: CsvRecord where
  "row0 =
     \<lparr>csv_id = ascii ''0'',
      csv_headword = [0x98F2, 0x8336] @ ascii '':jam2 caa4'',
      csv_entry =
        ascii ''(pos:'' @ [0x540D, 0x8A5E] @ ascii '')'' @ [0x0A] @
        ascii ''<explanation>'' @ [0x0A] @
        ascii ''yue:x'' @ [0x0A] @
        ascii ''eng:to drink tea'' @ [0x0A] @
        ascii ''<eg>'' @ [0x0A] @
        ascii ''yue:e1'' @ [0x0A] @
        ascii ''----'' @ [0x0A] @
        ascii ''<explanation>'' @ [0x0A] @
        ascii ''yue:z'' @ [0x0A] @
        ascii ''<eg>'' @ [0x0A] @
        ascii ''yue:e2'' @ [0x0A] @
        ascii ''<eg>'' @ [0x0A] @
        ascii ''yue:e3'',
      csv_variants = [], csv_warning = [], csv_public = ascii ''1''\<rparr>"

definition entry0 :: DictionaryEntry where
  "entry0 =
     \<lparr>entry_id = 0,
      headwords =
        [\<lparr>headword_text = [0x98F2, 0x8336], headword_readings = [ascii ''jam2 caa4'']\<rparr>],
      tags = [\<lparr>tag_name = ascii ''pos'', tag_value = [0x540D, 0x8A5E]\<rparr>],
      senses =
        [\<lparr>explanation =
            [(ascii ''yue'', [ascii ''x'']), (ascii ''eng'', [ascii ''to drink tea''])],
          egs = [[(ascii ''yue'', [ascii ''e1''])]]\<rparr>,
         \<lparr>explanation = [(ascii ''yue'', [ascii ''z''])],
          egs = [[(ascii ''yue'', [ascii ''e2''])], [(ascii ''yue'', [ascii ''e3''])]]\<rparr>]\<rparr>"

text \<open>
  The lines of a string as the flag \<open>m\<close> of a regular expression sees them: the pieces
  between line terminators. A delimiter line is a line that is exactly \<open>----\<close>.
\<close>

fun lines_of :: "jsstring \<Rightarrow> jsstring list" where
  "lines_of [] = [[]]"
| "lines_of (c # cs) =
     (if isLineTerminator c then [] # lines_of cs
      else (case lines_of cs of [] \<Rightarrow> [[c]] | l # ls \<Rightarrow> (c # l) # ls))"

definition delimiter_lines :: "jsstring \<Rightarrow> nat" where
  "delimiter_lines body = length (filter (\<lambda>l. l = ascii ''----'') (lines_of body))"

text \<open>
  The body that \<open>parseEntry\<close> splits into senses (the lines after the tag line, joined
  again), the blocks it splits it into, and the example blocks \<open>parseSense\<close> finds in one
  of them.
\<close>

definition body_of :: "CsvRecord \<Rightarrow> jsstring" where
  "body_of entry = js_join [0x0A] (tl (js_split [0x0A] (csv_entry entry)))"

definition sense_blocks :: "jsstring \<Rightarrow> jsstring list" where
  "sense_blocks body = split_line_regex (ascii ''----'') True body"

definition example_blocks :: "jsstring \<Rightarrow> jsstring list" where
  "example_blocks block =
     tl (split_line_regex (ascii ''<eg>'') True
           (replace_first (ascii ''<explanation>'' @ [0x0A]) [] block))"

text \<open>
  The invariant of the loop of \<open>parseLanguageData\<close>: the keys of the object are different
  language codes of the table, every key has at least one segment, every segment is
  trimmed, and \<open>currentLang\<close> is empty or passed the check against the table.
\<close>

definition lang_inv :: "lang_state \<Rightarrow> bool" where
  "lang_inv st =
     (case st of (languageData, currentLang, currentLangData) \<Rightarrow>
        distinct (map fst languageData) \<and>
        set (map fst languageData) \<subseteq> set LANGUAGES_DATA_keys \<and>
        list_all (\<lambda>(key, segments). segments \<noteq> [] \<and> list_all (\<lambda>seg. trim seg = seg) segments)
          languageData \<and>
        (currentLang = [] \<or> LANGUAGES_DATA_truthy currentLang))"

text \<open>The prefix of a line before its first colon, \<open>line.split(':')[0]\<close>.\<close>

definition matchedLang_of :: "jsstring \<Rightarrow> jsstring" where
  "matchedLang_of line = hd (js_split [0x3A] line)"



section \<open>Evaluation\<close>

lemmas eval_text =
  ascii_def isJyuutping_def testAlphabetic_def isAlphabetic_def isAlphanumeric_def
  isHighSurrogate_def isLowSurrogate_def trim_def isTrimmed_def isWhiteSpace_def
  isLineTerminator_def punctuations_def nth_opt_def toString_def truthy_def isPunctuation_def
  inCJKBlocks_def Let_def

lemmas eval_align =
  eval_text splitString_def splitString_step_def parseCantoneseReadings_def
  parseCantoneseReadings_step_def parseCantoneseReadings_loop.simps

lemmas eval_parser =
  eval_text startsWith_def slice_def slice_from_def slice_index_def digitValue_def parseInt_def
  LANGUAGES_DATA_keys_def Object_prototype_keys_def LANGUAGES_DATA_truthy_def array_truthy_def
  parseHeadwords_group_def parseHeadwords_def parseTags_tag_def parseTags_def
  addCurrentLangData_def parseLanguageData_step_def parseLanguageData_def parseSense_def
  parseEntry_def

lemma parseCantoneseReadings_doc: "parseCantoneseReadings docText docReading = Inr docResult"
  by (simp add: eval_align docText_def docReading_def docResult_def)

section \<open>The reading aligner\<close>

lemma isPunctuation_not_isJyuutping: "isPunctuation (Some s) \<Longrightarrow> \<not> isJyuutping s"
  by (auto simp: isPunctuation_def punctuations_def isJyuutping_def isAlphanumeric_def
      isAlphabetic_def)

lemma isJyuutping_nonempty: "isJyuutping s \<Longrightarrow> s \<noteq> []"
  by (auto simp: isJyuutping_def)

text \<open>What an iteration that does not throw has done: one of the three branches.\<close>

lemma step_cases:
  assumes "parseCantoneseReadings_step rawText readings ta ra i (res, ri, ti) = Inr st'"
  shows "ti < length ta \<and>
    (st' = (res @ [\<lparr>pair_text = ta ! ti, pair_reading = ra ! ri\<rparr>], Suc ri, Suc ti) \<and>
       ri < length ra \<and> isJyuutping (ra ! ri) \<or>
     st' = (res @ [\<lparr>pair_text = ta ! ti, pair_reading = []\<rparr>], ri, Suc ti) \<or>
     st' = (res @ [\<lparr>pair_text = ta ! ti, pair_reading = []\<rparr>], Suc ri, Suc ti) \<and>
       ri < length ra \<and> \<not> isJyuutping (ra ! ri))"
proof -
  have t: "ti < length ta"
    using assms
    by (auto simp: parseCantoneseReadings_step_def Let_def nth_opt_def truthy_def
        split: if_splits)
  show ?thesis
  proof (cases "ri < length ra")
    case True
    with t assms show ?thesis
      by (auto simp: parseCantoneseReadings_step_def Let_def nth_opt_def truthy_def toString_def
        dest: isPunctuation_not_isJyuutping split: if_splits)
  next
    case False
    with t assms show ?thesis
      by (auto simp: parseCantoneseReadings_step_def Let_def nth_opt_def truthy_def toString_def
        split: if_splits)
  qed
qed

lemma step_inv:
  assumes "parseCantoneseReadings_step rawText readings ta ra i (res, ri, ti) = Inr st'"
    and "align_inv ta ra (res, ri, ti)"
  shows "align_inv ta ra st' \<and> snd (snd st') = Suc ti"
  using step_cases[OF assms(1)] assms(2)
  by (auto simp: align_inv_def take_Suc_conv_app_nth dest: isJyuutping_nonempty)

lemma loop_inv:
  assumes "parseCantoneseReadings_loop rawText readings ta ra i st = Inr st'"
    and "align_inv ta ra st" and "snd (snd st) = i" and "i \<le> max (length ta) (length ra)"
  shows "align_inv ta ra st' \<and> snd (snd st') = max (length ta) (length ra)"
  using assms
proof (induction rawText readings ta ra i st rule: parseCantoneseReadings_loop.induct)
  case (1 rawText readings ta ra i st)
  show ?case
  proof (cases "i < max (length ta) (length ra)")
    case False
    with "1.prems" show ?thesis
      by (simp add: parseCantoneseReadings_loop.simps[of rawText readings ta ra i st])
  next
    case True
    obtain res ri ti where st: "st = (res, ri, ti)" by (cases st) auto
    from True "1.prems"(1) obtain st1 where
      s1: "parseCantoneseReadings_step rawText readings ta ra i st = Inr st1" and
      l1: "parseCantoneseReadings_loop rawText readings ta ra (Suc i) st1 = Inr st'"
      by (auto simp: parseCantoneseReadings_loop.simps[of rawText readings ta ra i st]
          split: sum.splits)
    from step_inv[OF s1[unfolded st]] "1.prems"(2,3) st
    have "align_inv ta ra st1" "snd (snd st1) = Suc i" by auto
    with "1.IH"[OF True s1 l1] True show ?thesis by simp
  qed
qed

text \<open>
  Claim C1, as amended. Whenever \<open>parseCantoneseReadings\<close> returns, the result has one pair
  per token of the text, in the order of the tokens, and the non-empty readings of the
  pairs, in order, are the reading tokens that hold a letter or a digit. (A reading token
  with neither, such as a punctuation mark, is consumed with an empty reading.)
\<close>

theorem C1_alignment_coverage:
  assumes "parseCantoneseReadings rawText readings = Inr result"
  shows "length result = length (splitString rawText) \<and>
         map pair_text result = splitString rawText \<and>
         filter (\<lambda>r. r \<noteq> []) (map pair_reading result) =
           filter isJyuutping (splitString readings)"
proof -
  let ?ta = "splitString rawText" and ?ra = "splitString readings"
  from assms obtain ri ti where
    l: "parseCantoneseReadings_loop rawText readings ?ta ?ra 0 ([], 0, 0) = Inr (result, ri, ti)"
    and r: "\<not> ri < length ?ra"
    by (auto simp: parseCantoneseReadings_def Let_def split: sum.splits if_splits)
  have "align_inv ?ta ?ra ([], 0, 0)" by (simp add: align_inv_def)
  from loop_inv[OF l this] have
    i: "align_inv ?ta ?ra (result, ri, ti)" and t: "ti = max (length ?ta) (length ?ra)"
    by auto
  from i t have "ti = length ?ta" by (simp add: align_inv_def)
  moreover from i r have "ri = length ?ra" by (simp add: align_inv_def)
  ultimately show ?thesis using i by (simp add: align_inv_def)
qed

theorem C1_alignment_coverage_witness:
  "parseCantoneseReadings docText docReading = Inr docResult \<and>
   length docResult = length (splitString docText) \<and>
   map pair_text docResult = splitString docText \<and>
   filter (\<lambda>r. r \<noteq> []) (map pair_reading docResult) =
     filter isJyuutping (splitString docReading)"
  using C1_alignment_coverage[OF parseCantoneseReadings_doc] parseCantoneseReadings_doc
  by simp

text \<open>
  The claim as stated fails on the example of the source's doc comment: the call returns,
  and the reading token \<open>?\<close> is not among the readings of the result.
\<close>

theorem C1_counterexample:
  "parseCantoneseReadings docText docReading = Inr docResult \<and>
   filter (\<lambda>r. r \<noteq> []) (map pair_reading docResult) \<noteq> splitString docReading"
  by (simp add: eval_align docText_def docReading_def docResult_def)

section \<open>The tokenizer\<close>

lemma trim_self:
  assumes "s = [] \<or> (\<not> isTrimmed (hd s) \<and> \<not> isTrimmed (last s))"
  shows "trim s = s"
proof (cases "s = []")
  case True
  then show ?thesis by (simp add: trim_def)
next
  case False
  with assms have h: "\<not> isTrimmed (hd s)" and l: "\<not> isTrimmed (hd (rev s))"
    by (simp_all add: hd_rev)
  from h have "dropWhile isTrimmed s = s" by (simp add: dropWhile_eq_self_iff)
  moreover from l have "dropWhile isTrimmed (rev s) = rev s"
    by (simp add: dropWhile_eq_self_iff)
  ultimately show ?thesis by (simp add: trim_def)
qed














section \<open>Readings left over, text left over\<close>












section \<open>Splitting a string\<close>


lemma js_split_unit_none: "c \<notin> set l \<Longrightarrow> js_split [c] l = [l]"
  by (induction l) (auto simp: startsWith_def)


section \<open>Headwords\<close>

text \<open>
  Claim C4. The group \<open>text:reading\<close> parses to the text and its reading; a group with
  no colon does not throw: \<open>readings\<close> is then the empty array, which is truthy, so the
  guard \<open>!text || !readings\<close> lets it through with no reading.
\<close>

theorem C4_headword_without_reading:
  "parseHeadwords [0x98F2, 0x8336] =
     Inr [\<lparr>headword_text = [0x98F2, 0x8336], headword_readings = []\<rparr>] \<and>
   parseHeadwords ([0x98F2, 0x8336] @ ascii '':jam2 caa4'') =
     Inr [\<lparr>headword_text = [0x98F2, 0x8336], headword_readings = [ascii ''jam2 caa4'']\<rparr>]"
  by (simp add: eval_parser)

text \<open>In general, a headword string with no colon and no comma is accepted with no reading.\<close>

lemma parseHeadwords_no_colon:
  assumes "h \<noteq> []" "0x3A \<notin> set h" "0x2C \<notin> set h"
  shows "parseHeadwords h = Inr [\<lparr>headword_text = h, headword_readings = []\<rparr>]"
  using assms
  by (simp add: parseHeadwords_def parseHeadwords_group_def js_split_unit_none array_truthy_def)

section \<open>Tags\<close>













section \<open>Language blocks\<close>


lemma trim_trim: "trim (trim s) = trim s"
proof (rule trim_self, cases "trim s = []")
  case False
  define t where "t = dropWhile isTrimmed s"
  define u where "u = dropWhile isTrimmed (rev t)"
  have ts: "trim s = rev u" by (simp add: trim_def t_def u_def)
  with False have u: "u \<noteq> []" by simp
  then have t: "t \<noteq> []" by (cases t) (simp_all add: u_def)
  have "\<not> isTrimmed (hd u)" using hd_dropWhile[of isTrimmed "rev t"] u by (simp add: u_def)
  then have l: "\<not> isTrimmed (last (rev u))" by (simp add: last_rev)
  have "\<not> isTrimmed (hd t)" using hd_dropWhile[of isTrimmed s] t by (simp add: t_def)
  moreover have "hd (rev u) = hd t"
  proof -
    have "takeWhile isTrimmed (rev t) @ u = rev t"
      unfolding u_def by (rule takeWhile_dropWhile_id)
    then have "rev (takeWhile isTrimmed (rev t) @ u) = t" by simp
    then have "t = rev u @ rev (takeWhile isTrimmed (rev t))" by simp
    then have "hd t = hd (rev u @ rev (takeWhile isTrimmed (rev t)))" by simp
    also have "\<dots> = hd (rev u)" using u by (simp add: hd_append2 del: hd_rev)
    finally show ?thesis by simp
  qed
  ultimately show "trim s = [] \<or> (\<not> isTrimmed (hd (trim s)) \<and> \<not> isTrimmed (last (trim s)))"
    using l by (simp only: ts) simp
qed simp





text \<open>
  Claim C5. A line with a colon whose prefix is a property name of \<open>Object.prototype\<close>,
  such as \<open>toString\<close>, is no language of the table and yet passes the check
  \<open>!LANGUAGES_DATA[matchedLang]\<close>: with nothing after the colon the call returns an empty
  object, with text after it the call throws a \<open>TypeError\<close>, not a \<open>ParseError\<close>. A
  prefix that is no property name at all throws the \<open>ParseError\<close>.
\<close>

theorem C5_prototype_key_not_rejected:
  "ascii ''toString'' \<notin> set LANGUAGES_DATA_keys \<and>
   parseLanguageData (ascii ''toString:'') = Inr [] \<and>
   parseLanguageData (ascii ''toString:x'') =
     Inl (TypeError (Push_is_not_a_function (ascii ''toString''))) \<and>
   parseLanguageData (ascii ''xyz:x'') = Inl (ParseError (Invalid_language (ascii ''xyz'')))"
  by (simp add: eval_parser)



text \<open>
  Claim C10. A language line with nothing after the colon, followed by an empty line,
  leaves the buffer holding one newline: it is not empty, so it is pushed, trimmed to the
  empty string. The segment list of \<open>eng\<close> then holds an empty segment. With no line
  after it, the same language line contributes nothing.
\<close>

theorem C10_empty_segment:
  "parseLanguageData (ascii ''eng:'' @ [0x0A]) = Inr [(ascii ''eng'', [[]])] \<and>
   parseLanguageData (ascii ''eng:'') = Inr []"
  by (simp add: eval_parser)

text \<open>
  What else holds of every object \<open>parseLanguageData\<close> returns: its keys are different
  language codes of the table, no key has an empty list, and every segment is trimmed.
\<close>

lemma set_property_absent: "map_of ld k = None \<Longrightarrow> set_property k v ld = ld @ [(k, v)]"
  by (induction ld) (auto split: if_splits)

lemma set_property_keys: "map_of ld k = Some w \<Longrightarrow> map fst (set_property k v ld) = map fst ld"
  by (induction ld) (auto split: if_splits)

lemma set_property_set: "set (set_property k v ld) \<subseteq> insert (k, v) (set ld)"
  by (induction ld) (auto split: if_splits)

lemma add_inv:
  assumes "lang_inv st" and "addCurrentLangData st = Inr st'"
  shows "lang_inv st'"
proof -
  obtain ld cl cd where st: "st = (ld, cl, cd)" by (cases st) auto
  let ?P = "\<lambda>(key, segments). segments \<noteq> [] \<and> list_all (\<lambda>seg. trim seg = seg) segments"
  from assms(1) st have d: "distinct (map fst ld)" and k: "set (map fst ld) \<subseteq> set LANGUAGES_DATA_keys"
    and p: "list_all ?P ld" and c: "cl = [] \<or> LANGUAGES_DATA_truthy cl"
    by (simp_all add: lang_inv_def)
  show ?thesis
  proof (cases "cl = [] \<or> cd = []")
    case True
    with assms st show ?thesis by (auto simp: addCurrentLangData_def split: if_splits)
  next
    case False
    show ?thesis
    proof (cases "map_of ld cl")
      case None
      with False assms(2) st have np: "cl \<notin> set Object_prototype_keys"
        and st': "st' = (set_property cl [trim cd] ld, [], [])"
        by (auto simp: addCurrentLangData_def split: if_splits)
      from None have a: "cl \<notin> fst ` set ld" by (simp add: map_of_eq_None_iff)
      from np c False have "cl \<in> set LANGUAGES_DATA_keys" by (auto simp: LANGUAGES_DATA_truthy_def)
      with a d k p show ?thesis
        by (auto simp: st' lang_inv_def set_property_absent[OF None] trim_trim)
    next
      case (Some segs)
      with False assms(2) st have st': "st' = (set_property cl (segs @ [trim cd]) ld, [], [])"
        by (auto simp: addCurrentLangData_def)
      from Some have m: "(cl, segs) \<in> set ld" by (rule map_of_SomeD)
      from m p have ps: "list_all (\<lambda>seg. trim seg = seg) segs"
        by (auto simp: list_all_iff)
      have "?P x" if "x \<in> set (set_property cl (segs @ [trim cd]) ld)" for x
      proof -
        from that set_property_set[of cl "segs @ [trim cd]" ld]
        consider "x = (cl, segs @ [trim cd])" | "x \<in> set ld" by blast
        then show ?thesis
        proof cases
          case 1
          with ps show ?thesis by (simp add: trim_trim)
        next
          case 2
          with p show ?thesis by (simp add: list_all_iff)
        qed
      qed
      then have "list_all ?P (set_property cl (segs @ [trim cd]) ld)"
        by (simp add: list_all_iff)
      moreover have km: "map fst (set_property cl (segs @ [trim cd]) ld) = map fst ld"
        by (rule set_property_keys[OF Some])
      moreover from km have "fst ` set (set_property cl (segs @ [trim cd]) ld) = fst ` set ld"
        by (metis set_map)
      ultimately show ?thesis using d k
        by (simp add: st' lang_inv_def)
    qed
  qed
qed

lemma step_inv_lang:
  assumes "lang_inv st" and "parseLanguageData_step st line = Inr st'"
  shows "lang_inv st'"
proof -
  obtain ld cl cd where st: "st = (ld, cl, cd)" by (cases st) auto
  show ?thesis
  proof (cases "0x3A \<in> set line")
    case False
    with assms st show ?thesis
      by (auto simp: parseLanguageData_step_def lang_inv_def Let_def)
  next
    case True
    with assms(2) st obtain ld' x y where
      t: "LANGUAGES_DATA_truthy (hd (js_split [0x3A] line))" and
      a: "addCurrentLangData st = Inr (ld', x, y)" and
      st': "st' = (ld', hd (js_split [0x3A] line), trim (replace_first (hd (js_split [0x3A] line) @ [0x3A]) [] line))"
      by (auto simp: parseLanguageData_step_def Let_def split: if_splits sum.splits)
    from add_inv[OF assms(1) a] t show ?thesis
      by (simp add: st' lang_inv_def)
  qed
qed

lemma foldl_inv_lang:
  "lang_inv st \<Longrightarrow> foldl_result parseLanguageData_step st lines = Inr st' \<Longrightarrow> lang_inv st'"
  by (induction lines arbitrary: st) (auto split: sum.splits dest: step_inv_lang)

lemma parseLanguageData_invariant:
  assumes "parseLanguageData text = Inr languageData"
  shows "distinct (map fst languageData) \<and>
         set (map fst languageData) \<subseteq> set LANGUAGES_DATA_keys \<and>
         list_all (\<lambda>(key, segments). segments \<noteq> [] \<and> list_all (\<lambda>seg. trim seg = seg) segments)
           languageData"
proof -
  from assms obtain st x y where
    f: "foldl_result parseLanguageData_step ([], [], []) (js_split [0x0A] text) = Inr st"
    and a: "addCurrentLangData st = Inr (languageData, x, y)"
    by (auto simp: parseLanguageData_def split: sum.splits)
  have "lang_inv ([], [], [])" by (simp add: lang_inv_def)
  from add_inv[OF foldl_inv_lang[OF this f] a] show ?thesis
    by (simp add: lang_inv_def)
qed

text \<open>
  When no line has a prefix that is the name of a property of \<open>Object.prototype\<close>, a line
  with a colon and a prefix outside the table makes \<open>parseLanguageData\<close> throw the
  \<open>ParseError\<close> for an invalid language.
\<close>

lemma add_no_prototype:
  assumes "cl \<notin> set Object_prototype_keys"
  shows "\<exists>ld' cl' cd'. addCurrentLangData (ld, cl, cd) = Inr (ld', cl', cd')"
  using assms by (auto simp: addCurrentLangData_def split: option.splits)

lemma step_no_prototype:
  assumes "cl \<notin> set Object_prototype_keys"
    and "matchedLang_of line \<notin> set Object_prototype_keys"
  shows "(\<exists>ld' cl' cd'. parseLanguageData_step (ld, cl, cd) line = Inr (ld', cl', cd') \<and>
            cl' \<notin> set Object_prototype_keys \<and>
            (0x3A \<in> set line \<longrightarrow> matchedLang_of line \<in> set LANGUAGES_DATA_keys)) \<or>
         (parseLanguageData_step (ld, cl, cd) line =
            Inl (ParseError (Invalid_language (matchedLang_of line))) \<and>
          matchedLang_of line \<notin> set LANGUAGES_DATA_keys)"
proof (cases "0x3A \<in> set line")
  case False
  with assms(1) show ?thesis by (simp add: parseLanguageData_step_def Let_def)
next
  case True
  show ?thesis
  proof (cases "LANGUAGES_DATA_truthy (matchedLang_of line)")
    case False
    with True show ?thesis
      by (simp add: parseLanguageData_step_def Let_def matchedLang_of_def LANGUAGES_DATA_truthy_def)
  next
    case t: True
    from add_no_prototype[OF assms(1), of ld cd] obtain ld' cl' cd' where
      "addCurrentLangData (ld, cl, cd) = Inr (ld', cl', cd')" by blast
    with True t assms(2) show ?thesis
      by (auto simp: parseLanguageData_step_def Let_def matchedLang_of_def LANGUAGES_DATA_truthy_def)
  qed
qed

lemma foldl_no_prototype:
  assumes "cl \<notin> set Object_prototype_keys"
    and "list_all (\<lambda>l. matchedLang_of l \<notin> set Object_prototype_keys) lines"
  shows "(\<exists>ld' cl' cd'. foldl_result parseLanguageData_step (ld, cl, cd) lines = Inr (ld', cl', cd') \<and>
            cl' \<notin> set Object_prototype_keys \<and>
            list_all (\<lambda>l. 0x3A \<in> set l \<longrightarrow> matchedLang_of l \<in> set LANGUAGES_DATA_keys) lines) \<or>
         (\<exists>m. foldl_result parseLanguageData_step (ld, cl, cd) lines =
                 Inl (ParseError (Invalid_language m)) \<and> m \<notin> set LANGUAGES_DATA_keys)"
  using assms
proof (induction lines arbitrary: ld cl cd)
  case Nil
  then show ?case by simp
next
  case (Cons l lines)
  from Cons.prems have l: "matchedLang_of l \<notin> set Object_prototype_keys"
    and ls: "list_all (\<lambda>l. matchedLang_of l \<notin> set Object_prototype_keys) lines" by simp_all
  from step_no_prototype[OF Cons.prems(1) l, of ld cd]
  show ?case
  proof (elim disjE exE conjE)
    fix ld' cl' cd'
    assume s: "parseLanguageData_step (ld, cl, cd) l = Inr (ld', cl', cd')"
      and c: "cl' \<notin> set Object_prototype_keys"
      and k: "0x3A \<in> set l \<longrightarrow> matchedLang_of l \<in> set LANGUAGES_DATA_keys"
    from Cons.IH[OF c ls, of ld' cd'] s k show ?thesis by auto
  next
    assume "parseLanguageData_step (ld, cl, cd) l =
        Inl (ParseError (Invalid_language (matchedLang_of l)))"
      and "matchedLang_of l \<notin> set LANGUAGES_DATA_keys"
    then show ?thesis by auto
  qed
qed

lemma parseLanguageData_rejects_unknown_code:
  "line \<in> set (js_split [0x0A] text) \<and> 0x3A \<in> set line \<and>
   matchedLang_of line \<notin> set LANGUAGES_DATA_keys \<and>
   list_all (\<lambda>l. matchedLang_of l \<notin> set Object_prototype_keys) (js_split [0x0A] text) \<longrightarrow>
   (\<exists>m. m \<notin> set LANGUAGES_DATA_keys \<and>
        parseLanguageData text = Inl (ParseError (Invalid_language m)))"
proof
  assume a: "line \<in> set (js_split [0x0A] text) \<and> 0x3A \<in> set line \<and>
   matchedLang_of line \<notin> set LANGUAGES_DATA_keys \<and>
   list_all (\<lambda>l. matchedLang_of l \<notin> set Object_prototype_keys) (js_split [0x0A] text)"
  have e: "[] \<notin> set Object_prototype_keys" by (simp add: Object_prototype_keys_def ascii_def)
  from a have p: "list_all (\<lambda>l. matchedLang_of l \<notin> set Object_prototype_keys) (js_split [0x0A] text)"
    by simp
  from foldl_no_prototype[OF e p, of "[]" "[]"]
  show "\<exists>m. m \<notin> set LANGUAGES_DATA_keys \<and>
        parseLanguageData text = Inl (ParseError (Invalid_language m))"
  proof (elim disjE exE conjE)
    fix ld' cl' cd'
    assume "list_all (\<lambda>l. 0x3A \<in> set l \<longrightarrow> matchedLang_of l \<in> set LANGUAGES_DATA_keys)
        (js_split [0x0A] text)"
    with a have False by (auto simp: list_all_iff)
    then show ?thesis ..
  next
    fix m
    assume "foldl_result parseLanguageData_step ([], [], []) (js_split [0x0A] text) =
        Inl (ParseError (Invalid_language m))" and "m \<notin> set LANGUAGES_DATA_keys"
    then show ?thesis by (auto simp: parseLanguageData_def)
  qed
qed

section \<open>Entries\<close>

lemma parseEntry_row0: "parseEntry row0 = Inr entry0"
  by (simp add: eval_parser row0_def entry0_def)


lemma parseEntry_abc: "parseEntry (row0\<lparr>csv_id := ascii ''abc''\<rparr>) = Inl (ParseError (Invalid_id (ascii ''abc'')))"
  by (simp add: eval_parser row0_def entry0_def)











section \<open>Senses\<close>

lemma lines_of_nonempty: "lines_of s \<noteq> []"
  by (induction s) (auto split: list.splits)

lemma lines_of_Cons:
  "lines_of (c # cs) =
     (if isLineTerminator c then [] # lines_of cs else (c # hd (lines_of cs)) # tl (lines_of cs))"
  using lines_of_nonempty[of cs] by (auto split: list.splits)

lemma hd_lines_of: "hd (lines_of s) = takeWhile (\<lambda>c. \<not> isLineTerminator c) s"
  by (induction s) (simp_all add: lines_of_Cons del: lines_of.simps(2))

lemma tl_lines_of_Cons:
  "tl (lines_of (c # cs)) = (if isLineTerminator c then lines_of cs else tl (lines_of cs))"
  by (simp add: lines_of_Cons del: lines_of.simps(2))

text \<open>The first line is \<open>d\<close> exactly when the regular expression matches at the start.\<close>

lemma first_line_eq:
  assumes "list_all (\<lambda>c. \<not> isLineTerminator c) d"
  shows "takeWhile (\<lambda>c. \<not> isLineTerminator c) s = d \<longleftrightarrow>
         startsWith s d \<and> (case drop (length d) s of [] \<Rightarrow> True | r # _ \<Rightarrow> isLineTerminator r)"
  using assms
proof (induction d arbitrary: s)
  case Nil
  then show ?case by (cases s) (auto simp: startsWith_def)
next
  case (Cons x d)
  show ?case
  proof (cases s)
    case Nil
    then show ?thesis by (simp add: startsWith_def)
  next
    case (Cons y ys)
    with Cons.prems Cons.IH[of ys] show ?thesis
      by (auto simp: startsWith_def)
  qed
qed

lemma lines_of_prefix:
  assumes "list_all (\<lambda>c. \<not> isLineTerminator c) d"
  shows "lines_of (d @ rest) = (d @ hd (lines_of rest)) # tl (lines_of rest)"
  using assms lines_of_nonempty[of rest]
  by (induction d) (simp_all add: lines_of_Cons del: lines_of.simps(2))

lemma split_line_regex_nonempty: "split_line_regex d bol s \<noteq> []"
  by (induction d bol s rule: split_line_regex.induct) (auto split: list.splits)

lemma length_split_line_regex:
  assumes "d \<noteq> []" "list_all (\<lambda>c. \<not> isLineTerminator c) d"
  shows "length (split_line_regex d bol s) =
         Suc (length (filter (\<lambda>l. l = d) (if bol then lines_of s else tl (lines_of s))))"
  using assms
proof (induction d bol s rule: split_line_regex.induct)
  case (1 d bol)
  then show ?case by auto
next
  case (2 d bol c cs)
  note d = "2.prems"
  let ?s = "c # cs"
  let ?rest = "drop (length d) ?s"
  let ?M = "d \<noteq> [] \<and> bol \<and> startsWith ?s d \<and>
         (case ?rest of [] \<Rightarrow> True | r # _ \<Rightarrow> isLineTerminator r)"
  let ?count = "\<lambda>ls. length (filter (\<lambda>l. l = d) ls)"
  from d have last: "\<not> isLineTerminator (last d)"
    by (metis (mono_tags, lifting) last_in_set list_all_iff)
  show ?case
  proof (cases ?M)
    case True
    then have bol: bol and sw: "startsWith ?s d"
      and r: "(case ?rest of [] \<Rightarrow> True | r # _ \<Rightarrow> isLineTerminator r)" by simp_all
    from sw have s: "?s = d @ ?rest"
      by (metis append_take_drop_id startsWith_def)
    from r have "takeWhile (\<lambda>c. \<not> isLineTerminator c) ?rest = []"
      by (cases ?rest) simp_all
    then have h: "hd (lines_of ?rest) = []" by (simp only: hd_lines_of)
    have "lines_of ?s = (d @ hd (lines_of ?rest)) # tl (lines_of ?rest)"
      by (subst s) (rule lines_of_prefix[OF d(2)])
    then have c1: "?count (lines_of ?s) = Suc (?count (tl (lines_of ?rest)))"
      by (simp only: h) simp
    have "length (split_line_regex d bol ?s) =
          Suc (length (split_line_regex d (isLineTerminator (last d)) ?rest))"
      using True by simp
    also have "\<dots> = Suc (Suc (?count (tl (lines_of ?rest))))"
      using "2.IH"(1)[OF True d] last by simp
    finally show ?thesis using c1 bol by simp
  next
    case False
    have "length (split_line_regex d bol ?s) = length (split_line_regex d (isLineTerminator c) cs)"
    proof -
      have "split_line_regex d bol ?s =
            (case split_line_regex d (isLineTerminator c) cs of
               [] \<Rightarrow> [[c]] | piece # pieces \<Rightarrow> (c # piece) # pieces)"
        using False by (simp only: split_line_regex.simps if_False)
      moreover obtain piece pieces where
        "split_line_regex d (isLineTerminator c) cs = piece # pieces"
        using split_line_regex_nonempty[of d "isLineTerminator c" cs]
        by (cases "split_line_regex d (isLineTerminator c) cs") auto
      ultimately show ?thesis by simp
    qed
    also have "\<dots> = Suc (?count (if isLineTerminator c then lines_of cs else tl (lines_of cs)))"
      by (rule "2.IH"(2)[OF False d])
    also have "?count (if isLineTerminator c then lines_of cs else tl (lines_of cs)) =
               ?count (if bol then lines_of ?s else tl (lines_of ?s))"
    proof (cases bol)
      case f: False
      then show ?thesis by (simp add: tl_lines_of_Cons del: lines_of.simps(2))
    next
      case t: True
      show ?thesis
      proof (cases "isLineTerminator c")
        case True
        with t d(1) show ?thesis by (auto simp: lines_of_Cons simp del: lines_of.simps(2))
      next
        case nlt: False
        from False t d(1) first_line_eq[OF d(2), of ?s]
        have "takeWhile (\<lambda>c. \<not> isLineTerminator c) ?s \<noteq> d" by blast
        then have "c # hd (lines_of cs) \<noteq> d" using nlt by (simp add: hd_lines_of)
        with t nlt show ?thesis by (simp add: lines_of_Cons del: lines_of.simps(2))
      qed
    qed
    finally show ?thesis .
  qed
qed

lemma map_result_Inr:
  "map_result f xs = Inr ys \<Longrightarrow> list_all2 (\<lambda>x y. f x = Inr y) xs ys"
  by (induction xs arbitrary: ys) (auto split: sum.splits)

lemma parseTags_remaining: "parseTags ls = Inr (t, r) \<Longrightarrow> r = tl ls"
  by (auto simp: parseTags_def Let_def split: list.splits if_splits)

lemma parseEntry_senses:
  assumes "parseEntry entry = Inr e"
  shows "map_result parseSense (sense_blocks (body_of entry)) = Inr (senses e)"
proof -
  from assms obtain t r ss where
    t: "parseTags (js_split [0x0A] (csv_entry entry)) = Inr (t, r)" and
    m: "map_result parseSense (split_line_regex (ascii ''----'') True (js_join [0x0A] r)) = Inr ss"
    and e: "senses e = ss"
    by (auto simp: parseEntry_def Let_def split: option.splits sum.splits prod.splits)
  from parseTags_remaining[OF t] m e show ?thesis
    by (simp add: sense_blocks_def body_of_def)
qed

lemma parseSense_egs:
  assumes "parseSense block = Inr s"
  shows "map_result parseLanguageData (example_blocks block) = Inr (egs s)"
  using assms
  by (auto simp: parseSense_def example_blocks_def Let_def split: list.splits sum.splits)

lemma delimiter_count:
  "length (sense_blocks body) = Suc (delimiter_lines body)"
  using length_split_line_regex[of "ascii ''----''" True body]
  by (simp add: sense_blocks_def delimiter_lines_def ascii_def isLineTerminator_def)

text \<open>
  Claim C8. An entry that parses has one sense per block of its body, that is one more
  than the body has delimiter lines, so two senses for one delimiter line; the sense at
  position \<open>i\<close> is the parse of the block at position \<open>i\<close>, and its examples are the
  parses of the example blocks of that block.
\<close>

theorem C8_sense_per_block:
  assumes "parseEntry entry = Inr e"
  shows "length (senses e) = Suc (delimiter_lines (body_of entry)) \<and>
         (delimiter_lines (body_of entry) = 1 \<longrightarrow> length (senses e) = 2) \<and>
         (\<forall>i < length (senses e).
            parseSense (sense_blocks (body_of entry) ! i) = Inr (senses e ! i) \<and>
            map_result parseLanguageData (example_blocks (sense_blocks (body_of entry) ! i)) =
              Inr (egs (senses e ! i)))"
proof -
  let ?blocks = "sense_blocks (body_of entry)"
  from map_result_Inr[OF parseEntry_senses[OF assms]]
  have l2: "list_all2 (\<lambda>x y. parseSense x = Inr y) ?blocks (senses e)" .
  then have len: "length (senses e) = length ?blocks" by (simp add: list_all2_lengthD)
  with delimiter_count[of "body_of entry"]
  have n: "length (senses e) = Suc (delimiter_lines (body_of entry))" by simp
  have "parseSense (?blocks ! i) = Inr (senses e ! i) \<and>
        map_result parseLanguageData (example_blocks (?blocks ! i)) = Inr (egs (senses e ! i))"
    if "i < length (senses e)" for i
  proof -
    from that len have "i < length ?blocks" by simp
    from list_all2_nthD[OF l2 this]
    have p: "parseSense (?blocks ! i) = Inr (senses e ! i)" .
    with parseSense_egs[OF p] show ?thesis by simp
  qed
  with n show ?thesis by simp
qed

theorem C8_sense_per_block_witness:
  "parseEntry row0 = Inr entry0 \<and>
   delimiter_lines (body_of row0) = 1 \<and>
   length (senses entry0) = 2 \<and>
   map_result parseLanguageData (example_blocks (sense_blocks (body_of row0) ! 0)) =
     Inr [[(ascii ''yue'', [ascii ''e1''])]] \<and>
   map_result parseLanguageData (example_blocks (sense_blocks (body_of row0) ! 1)) =
     Inr [[(ascii ''yue'', [ascii ''e2''])], [(ascii ''yue'', [ascii ''e3''])]]"
proof -
  note c = C8_sense_per_block[OF parseEntry_row0]
  have l: "length (senses entry0) = 2" by (simp add: entry0_def)
  from c l have d: "delimiter_lines (body_of row0) = 1" by simp
  from c l have
    "map_result parseLanguageData (example_blocks (sense_blocks (body_of row0) ! 0)) =
       Inr (egs (senses entry0 ! 0))"
    "map_result parseLanguageData (example_blocks (sense_blocks (body_of row0) ! 1)) =
       Inr (egs (senses entry0 ! 1))"
    by simp_all
  then have
    "map_result parseLanguageData (example_blocks (sense_blocks (body_of row0) ! 0)) =
       Inr [[(ascii ''yue'', [ascii ''e1''])]]"
    "map_result parseLanguageData (example_blocks (sense_blocks (body_of row0) ! 1)) =
       Inr [[(ascii ''yue'', [ascii ''e2''])], [(ascii ''yue'', [ascii ''e3''])]]"
    by (simp_all add: entry0_def)
  with parseEntry_row0 d l show ?thesis by simp
qed

end
